theory Spec2Isabelle
  imports Complex_Main "HOL-Library.Word"
begin

section \<open>Errors\<close>

text \<open>
  Every exception the modelled code can raise is a value. \<open>IOError\<close> stands for any
  failure of \<open>read_image\<close> (missing or corrupt file), \<open>SizeMismatchError\<close> for a failed
  \<open>check_image_size\<close>, \<open>InvalidCast\<close> for a float-to-integer conversion of a value that
  is not finite (NumPy gives a platform-dependent integer there).
\<close>

datatype error =
    IOError
  | SizeMismatchError
  | KeyError
  | ValueError
  | ZeroDivisionError
  | AssertionError
  | TypeError
  | IndexError
  | InvalidCast

section \<open>The frame-pairing scheduler (projects/DFF/dff/data/dataset_mapper.py)\<close>

subsection \<open>Data\<close>

text \<open>
  A dataset dict. \<open>pattern\<close> is present on frames of a video sequence only;
  \<open>frame_seg_id\<close> and \<open>frame_seg_len\<close> are dictionary entries that a still-image record
  need not carry, so reading an absent one is a \<open>KeyError\<close>. Annotations play no part
  in the pairing and are left out.
\<close>

record sample =
  file_name :: string
  pattern :: "string option"
  frame_seg_id :: "int option"
  frame_seg_len :: "int option"

text \<open>
  The fields of a \<open>DFFDatasetMapper\<close> instance. The two cache fields are the only ones
  written after construction. \<open>key_frame_img\<close> holds a reference to an image array: an
  address of the store below.
\<close>

record mapper =
  is_train :: bool
  frame_offset_min :: int
  frame_offset_max :: int
  key_frame_duration :: int
  vid_image_root :: string
  key_frame_img :: "nat option"
  key_frame_seg_id :: "int option"

text \<open>
  What the method calls but this file does not define: decoding an image file
  (\<open>read_image\<close>, \<open>None\<close> when it fails), detectron2's \<open>check_image_size\<close> (\<open>True\<close> when
  it passes), \<open>str.format\<close> on the pattern and \<open>os.path.join\<close>. The type \<open>'px\<close> is the
  content of an image array.
\<close>

record 'px env =
  read_image :: "string \<Rightarrow> 'px option"
  check_image_size :: "sample \<Rightarrow> 'px \<Rightarrow> bool"
  format :: "string \<Rightarrow> int \<Rightarrow> string"
  path_join :: "string \<Rightarrow> string \<Rightarrow> string"

text \<open>
  Image arrays are objects: \<open>image_cur.copy()\<close> makes a new array with the same content,
  while \<open>image_ref = self.key_frame_img\<close> shares one array. The store is the list of all
  arrays made so far, an address is an index into it, and a new array goes to the end.
\<close>

definition alloc :: "'px list \<Rightarrow> 'px \<Rightarrow> nat \<times> 'px list" where
  "alloc h x = (length h, h @ [x])"

type_synonym 'px state = "mapper \<times> 'px list"

type_synonym outcome = "error + nat \<times> nat"

subsection \<open>Construction\<close>

definition init :: "bool \<Rightarrow> int \<Rightarrow> int \<Rightarrow> int \<Rightarrow> string \<Rightarrow> mapper" where
  "init train off_min off_max duration img_root =
     \<lparr>is_train = train, frame_offset_min = off_min, frame_offset_max = off_max,
      key_frame_duration = duration, vid_image_root = img_root,
      key_frame_img = None, key_frame_seg_id = None\<rparr>"

subsection \<open>The random draw\<close>

text \<open>
  \<open>random.randint(a, b)\<close> of Python's standard library returns an integer \<open>N\<close> with
  \<open>a \<le> N \<le> b\<close>, both ends included, and raises \<open>ValueError\<close> when there is none.
  \<open>randint a b\<close> is the set of values a draw can return.
\<close>

definition randint :: "int \<Rightarrow> int \<Rightarrow> int set" where
  "randint a b = {a..b}"

text \<open>Line 145: \<open>offset = random.randint(self.frame_offset_min, self.frame_offset_max + 1)\<close>.\<close>

definition draw_offset :: "mapper \<Rightarrow> int set" where
  "draw_offset m = randint (frame_offset_min m) (frame_offset_max m + 1)"

text \<open>Lines 146 to 149.\<close>

definition ref_id :: "int \<Rightarrow> int \<Rightarrow> int \<Rightarrow> int" where
  "ref_id fid len offset = min (max (fid + offset) 0) (len - 1)"

subsection \<open>The pairing part of \<open>__call__\<close> (lines 132 to 175)\<close>

text \<open>
  The training branch, after \<open>image_cur\<close> was read and checked. \<open>offset\<close> is the value
  the draw returned; only members of \<open>draw_offset m\<close> are outcomes of a draw. The
  result is the reference to \<open>image_ref\<close> and the store, or the error raised.
\<close>

definition train_pair ::
  "'px env \<Rightarrow> int \<Rightarrow> sample \<Rightarrow> mapper \<Rightarrow> nat \<Rightarrow> 'px list \<Rightarrow> error + nat \<times> 'px list" where
  "train_pair env offset d m image_cur h =
     (case pattern d of
        None \<Rightarrow> Inr (alloc h (h ! image_cur))
      | Some pat \<Rightarrow>
          if draw_offset m = {} then Inl ValueError
          else (case frame_seg_id d of
              None \<Rightarrow> Inl KeyError
            | Some fid \<Rightarrow>
               (case frame_seg_len d of
                  None \<Rightarrow> Inl KeyError
                | Some len \<Rightarrow>
                   (case read_image env
                           (path_join env (vid_image_root m)
                              (format env pat (ref_id fid len offset))) of
                      None \<Rightarrow> Inl IOError
                    | Some px \<Rightarrow> Inr (alloc h px)))))"

text \<open>
  The inference branch up to line 169: the key-frame decision. It returns the reference
  to \<open>image_ref\<close>, the mapper with its cache fields as the branch leaves them, and the
  store.
\<close>

definition test_ref ::
  "int \<Rightarrow> mapper \<Rightarrow> nat \<Rightarrow> 'px list \<Rightarrow> error + nat \<times> mapper \<times> 'px list" where
  "test_ref fid m image_cur h =
     (if key_frame_duration m = 0 then Inl ZeroDivisionError
      else if fid mod key_frame_duration m = 0 then
        (let (image_ref, h1) = alloc h (h ! image_cur);
             (key_img, h2) = alloc h1 (h1 ! image_cur)
         in Inr (image_ref, m\<lparr>key_frame_img := Some key_img, key_frame_seg_id := Some fid\<rparr>, h2))
      else (case key_frame_img m of
          None \<Rightarrow> Inl AssertionError
        | Some key_img \<Rightarrow>
           (case key_frame_seg_id m of
              None \<Rightarrow> Inl TypeError
            | Some kid \<Rightarrow>
                if 0 < fid - kid \<and> fid - kid < key_frame_duration m
                then Inr (key_img, m, h)
                else Inl AssertionError)))"

text \<open>Lines 171 to 173: the cache is cleared on the last frame of the sequence.\<close>

definition clear_if_last :: "int \<Rightarrow> int \<Rightarrow> mapper \<Rightarrow> mapper" where
  "clear_if_last fid len m =
     (if fid + 1 = len then m\<lparr>key_frame_img := None, key_frame_seg_id := None\<rparr> else m)"

text \<open>
  The method from its first line to the second \<open>check_image_size\<close> (line 175). An
  exception leaves the instance as it was when it was raised, so the state is returned
  in every case. The method works on a deep copy of the dataset dict, so the caller's
  record is only read; the width and height that \<open>check_image_size\<close> may add to the
  copy are not modelled. What follows line 175 (the augmentations and the conversion
  to tensors) reads the two images and writes neither the instance nor the pairing.
\<close>

definition mapper_call ::
  "'px env \<Rightarrow> int \<Rightarrow> sample \<Rightarrow> 'px state \<Rightarrow> outcome \<times> 'px state" where
  "mapper_call env offset d st =
     (let (m, h) = st in
      case read_image env (file_name d) of
        None \<Rightarrow> (Inl IOError, (m, h))
      | Some px \<Rightarrow>
         (let (image_cur, h0) = alloc h px in
          if \<not> check_image_size env d px then (Inl SizeMismatchError, (m, h0))
          else if is_train m then
            (case train_pair env offset d m image_cur h0 of
               Inl e \<Rightarrow> (Inl e, (m, h0))
             | Inr (image_ref, h1) \<Rightarrow>
                 if check_image_size env d (h1 ! image_ref)
                 then (Inr (image_cur, image_ref), (m, h1))
                 else (Inl SizeMismatchError, (m, h1)))
          else
            (case frame_seg_id d of
               None \<Rightarrow> (Inl KeyError, (m, h0))
             | Some fid \<Rightarrow>
                (case test_ref fid m image_cur h0 of
                   Inl e \<Rightarrow> (Inl e, (m, h0))
                 | Inr (image_ref, m1, h1) \<Rightarrow>
                    (case frame_seg_len d of
                       None \<Rightarrow> (Inl KeyError, (m1, h1))
                     | Some len \<Rightarrow>
                        (let m2 = clear_if_last fid len m1 in
                         if check_image_size env d (h1 ! image_ref)
                         then (Inr (image_cur, image_ref), (m2, h1))
                         else (Inl SizeMismatchError, (m2, h1))))))))"

text \<open>
  Sequential use: the samples are mapped one after the other by one instance; the
  first exception ends the run. The outcomes so far and the final state are returned.
\<close>

fun feed :: "'px env \<Rightarrow> int \<Rightarrow> sample list \<Rightarrow> 'px state \<Rightarrow> outcome list \<times> 'px state" where
  "feed env offset [] st = ([], st)"
| "feed env offset (d # ds) st =
     (case mapper_call env offset d st of
        (Inl e, st') \<Rightarrow> ([Inl e], st')
      | (Inr r, st') \<Rightarrow>
          (let (rs, st'') = feed env offset ds st' in (Inr r # rs, st'')))"

text \<open>
  The states an instance can be in: the one construction leaves, and every state a
  call leaves, whatever the sample and the draw, whether the call returned or raised.
\<close>

inductive reachable :: "'px env \<Rightarrow> mapper \<Rightarrow> 'px state \<Rightarrow> bool" for env :: "'px env" and m0 :: mapper where
  fresh: "m0 = init train off_min off_max duration img_root \<Longrightarrow> reachable env m0 (m0, h)"
| call: "reachable env m0 st \<Longrightarrow> reachable env m0 (snd (mapper_call env offset d st))"

text \<open>
  The invariant of the cache: an image is cached only together with the index of its
  frame, and that index is a multiple of the key-frame duration.
\<close>

definition cache_ok :: "mapper \<Rightarrow> bool" where
  "cache_ok m \<longleftrightarrow>
     (\<forall>a. key_frame_img m = Some a \<longrightarrow>
        (\<exists>k. key_frame_seg_id m = Some k \<and> key_frame_duration m \<noteq> 0 \<and>
             k mod key_frame_duration m = 0))"

subsection \<open>A small instance\<close>

text \<open>
  A file system in which the decoded image of a file is its name, every size check
  passes, and frame \<open>i\<close> of a sequence is stored in a file named by \<open>i + 1\<close> letters.
\<close>

definition ex_env :: "string env" where
  "ex_env = \<lparr>read_image = Some, check_image_size = (\<lambda>d px. True),
             format = (\<lambda>p i. replicate (nat i + 1) CHR ''f''), path_join = (\<lambda>a b. b)\<rparr>"

definition ex_img :: "int \<Rightarrow> string" where
  "ex_img i = replicate (nat i + 1) CHR ''f''"

definition ex_frame :: "nat \<Rightarrow> nat \<Rightarrow> sample" where
  "ex_frame len i = \<lparr>file_name = ex_img (int i), pattern = Some ''p'',
                     frame_seg_id = Some (int i), frame_seg_len = Some (int len)\<rparr>"

definition ex_seq :: "nat \<Rightarrow> sample list" where
  "ex_seq len = map (ex_frame len) [0..<len]"

section \<open>The flow colour encoder (detectron2/utils/flow_visualizer.py)\<close>

subsection \<open>Floating-point values\<close>

text \<open>
  A NumPy float is \<open>nan\<close>, \<open>inf\<close>, \<open>-inf\<close> or a finite number. Finite numbers are taken
  as reals: rounding, overflow, underflow and the sign of zero are not modelled. On the
  special values the operations follow IEEE 754, a zero divisor counting as \<open>+0\<close>.
  NumPy reports an invalid operation or a division by zero as a warning and goes on
  with \<open>nan\<close> or \<open>inf\<close>; it raises nothing.
\<close>

datatype fl = NaN | PInf | MInf | Fin real

fun is_nan :: "fl \<Rightarrow> bool" where
  "is_nan NaN = True"
| "is_nan _ = False"

fun fneg :: "fl \<Rightarrow> fl" where
  "fneg NaN = NaN"
| "fneg PInf = MInf"
| "fneg MInf = PInf"
| "fneg (Fin a) = Fin (- a)"

fun fabs :: "fl \<Rightarrow> fl" where
  "fabs NaN = NaN"
| "fabs PInf = PInf"
| "fabs MInf = PInf"
| "fabs (Fin a) = Fin \<bar>a\<bar>"

text \<open>\<open>fless x y\<close> is \<open>x < y\<close> and \<open>fle x y\<close> is \<open>x <= y\<close>: false when an operand is \<open>nan\<close>.\<close>

fun fless :: "fl \<Rightarrow> fl \<Rightarrow> bool" where
  "fless NaN _ = False"
| "fless _ NaN = False"
| "fless _ MInf = False"
| "fless MInf _ = True"
| "fless PInf _ = False"
| "fless (Fin a) PInf = True"
| "fless (Fin a) (Fin b) = (a < b)"

fun fle :: "fl \<Rightarrow> fl \<Rightarrow> bool" where
  "fle NaN _ = False"
| "fle _ NaN = False"
| "fle MInf _ = True"
| "fle _ MInf = False"
| "fle _ PInf = True"
| "fle PInf _ = False"
| "fle (Fin a) (Fin b) = (a \<le> b)"

fun fadd :: "fl \<Rightarrow> fl \<Rightarrow> fl" where
  "fadd NaN _ = NaN"
| "fadd _ NaN = NaN"
| "fadd PInf MInf = NaN"
| "fadd MInf PInf = NaN"
| "fadd PInf _ = PInf"
| "fadd _ PInf = PInf"
| "fadd MInf _ = MInf"
| "fadd _ MInf = MInf"
| "fadd (Fin a) (Fin b) = Fin (a + b)"

definition fsub :: "fl \<Rightarrow> fl \<Rightarrow> fl" where
  "fsub x y = fadd x (fneg y)"

fun fmul :: "fl \<Rightarrow> fl \<Rightarrow> fl" where
  "fmul NaN _ = NaN"
| "fmul _ NaN = NaN"
| "fmul (Fin a) (Fin b) = Fin (a * b)"
| "fmul (Fin a) y = (if a = 0 then NaN else if 0 < a then y else fneg y)"
| "fmul x (Fin b) = (if b = 0 then NaN else if 0 < b then x else fneg x)"
| "fmul PInf y = y"
| "fmul MInf y = fneg y"

fun fdiv :: "fl \<Rightarrow> fl \<Rightarrow> fl" where
  "fdiv NaN _ = NaN"
| "fdiv _ NaN = NaN"
| "fdiv (Fin a) (Fin b) =
     (if b = 0 then (if a = 0 then NaN else if 0 < a then PInf else MInf) else Fin (a / b))"
| "fdiv (Fin a) _ = Fin 0"
| "fdiv x (Fin b) = (if 0 \<le> b then x else fneg x)"
| "fdiv _ _ = NaN"

fun fsqrt :: "fl \<Rightarrow> fl" where
  "fsqrt NaN = NaN"
| "fsqrt PInf = PInf"
| "fsqrt MInf = NaN"
| "fsqrt (Fin a) = (if a < 0 then NaN else Fin (sqrt a))"

fun ffloor :: "fl \<Rightarrow> fl" where
  "ffloor (Fin a) = Fin (of_int \<lfloor>a\<rfloor>)"
| "ffloor x = x"

text \<open>
  The angle of the point \<open>(x, y)\<close>, in \<open>(-pi, pi]\<close>, and \<open>np.arctan2\<close> on floats, with the
  values C99 gives at infinite arguments.
\<close>

definition atan2 :: "real \<Rightarrow> real \<Rightarrow> real" where
  "atan2 y x =
     (if 0 < x then arctan (y / x)
      else if x < 0 then (if 0 \<le> y then arctan (y / x) + pi else arctan (y / x) - pi)
      else if 0 < y then pi / 2
      else if y < 0 then - (pi / 2)
      else 0)"

fun fatan2 :: "fl \<Rightarrow> fl \<Rightarrow> fl" where
  "fatan2 NaN _ = NaN"
| "fatan2 _ NaN = NaN"
| "fatan2 (Fin y) (Fin x) = Fin (atan2 y x)"
| "fatan2 (Fin y) PInf = Fin 0"
| "fatan2 (Fin y) MInf = Fin (if 0 \<le> y then pi else - pi)"
| "fatan2 PInf (Fin x) = Fin (pi / 2)"
| "fatan2 MInf (Fin x) = Fin (- (pi / 2))"
| "fatan2 PInf PInf = Fin (pi / 4)"
| "fatan2 PInf MInf = Fin (3 * pi / 4)"
| "fatan2 MInf PInf = Fin (- (pi / 4))"
| "fatan2 MInf MInf = Fin (- (3 * pi / 4))"

text \<open>
  \<open>.astype(int)\<close> and \<open>np.uint8\<close> of a float. A value that is not finite has no
  integer; the 8-bit conversion of a finite value outside \<open>[0, 255]\<close> wraps around.
\<close>

fun astype_int :: "fl \<Rightarrow> error + int" where
  "astype_int (Fin a) = Inr \<lfloor>a\<rfloor>"
| "astype_int _ = Inl InvalidCast"

fun np_uint8 :: "fl \<Rightarrow> error + 8 word" where
  "np_uint8 (Fin a) = Inr (word_of_int \<lfloor>a\<rfloor>)"
| "np_uint8 _ = Inl InvalidCast"

text \<open>\<open>np.finfo(float).eps\<close>.\<close>

definition eps :: real where
  "eps = 1 / 2 ^ 52"

subsection \<open>Arrays\<close>

text \<open>
  A two-dimensional array is the list of its rows. An operation that NumPy applies to
  every element is a map; when it can raise, the first error is the result.
\<close>

definition map2d :: "('a \<Rightarrow> 'b) \<Rightarrow> 'a list list \<Rightarrow> 'b list list" where
  "map2d f = map (map f)"

fun collect :: "('e + 'a) list \<Rightarrow> 'e + 'a list" where
  "collect [] = Inr []"
| "collect (x # xs) =
     (case x of
        Inl e \<Rightarrow> Inl e
      | Inr y \<Rightarrow> (case collect xs of Inl e \<Rightarrow> Inl e | Inr ys \<Rightarrow> Inr (y # ys)))"

definition collect2d :: "('e + 'a) list list \<Rightarrow> 'e + 'a list list" where
  "collect2d xss = collect (map collect xss)"

text \<open>Indexing with an integer: a negative index counts from the end.\<close>

definition np_index :: "'a list \<Rightarrow> int \<Rightarrow> error + 'a" where
  "np_index xs i =
     (let n = int (length xs) in
      if 0 \<le> i \<and> i < n then Inr (xs ! nat i)
      else if - n \<le> i \<and> i < 0 then Inr (xs ! nat (i + n))
      else Inl IndexError)"

text \<open>
  \<open>np.max\<close> of all elements: \<open>ValueError\<close> on an array without elements, \<open>nan\<close> as soon
  as one element is \<open>nan\<close>.
\<close>

definition fmaximum :: "fl \<Rightarrow> fl \<Rightarrow> fl" where
  "fmaximum x y = (if is_nan x \<or> is_nan y then NaN else if fless x y then y else x)"

fun np_max :: "fl list \<Rightarrow> error + fl" where
  "np_max [] = Inl ValueError"
| "np_max (x # xs) = Inr (foldl fmaximum x xs)"

text \<open>Python's built-in \<open>max(a, b)\<close>: \<open>b\<close> if \<open>b > a\<close>, else \<open>a\<close>.\<close>

definition py_max :: "fl \<Rightarrow> fl \<Rightarrow> fl" where
  "py_max a b = (if fless a b then b else a)"

subsection \<open>\<open>make_color_wheel\<close>\<close>

text \<open>
  The table is filled segment by segment; each row is (column 0, column 1, column 2).
  \<open>ramp n\<close> is \<open>np.floor(255 * np.arange(0, n) / n)\<close>.
\<close>

definition ramp :: "nat \<Rightarrow> real list" where
  "ramp n = map (\<lambda>i. of_int \<lfloor>255 * real i / real n\<rfloor>) [0..<n]"

definition RY :: nat where "RY = 15"
definition YG :: nat where "YG = 6"
definition GC :: nat where "GC = 4"
definition CB :: nat where "CB = 11"
definition BM :: nat where "BM = 13"
definition MR :: nat where "MR = 6"

definition make_color_wheel :: "(real \<times> real \<times> real) list" where
  "make_color_wheel =
     map (\<lambda>x. (255, x, 0)) (ramp RY) @
     map (\<lambda>x. (255 - x, 255, 0)) (ramp YG) @
     map (\<lambda>x. (0, 255, x)) (ramp GC) @
     map (\<lambda>x. (0, 255 - x, 255)) (ramp CB) @
     map (\<lambda>x. (x, 0, 255)) (ramp BM) @
     map (\<lambda>x. (255, 0, 255 - x)) (ramp MR)"

text \<open>\<open>colorwheel[:, i]\<close>.\<close>

definition column :: "nat \<Rightarrow> (real \<times> real \<times> real) list \<Rightarrow> real list" where
  "column i w = map (\<lambda>(r, g, b). if i = 0 then r else if i = 1 then g else b) w"

subsection \<open>\<open>compute_color\<close>\<close>

text \<open>
  The function works on whole arrays, element by element; the definitions below give
  what it computes at one pixel, line by line. \<open>u\<close> and \<open>v\<close> have one shape and are kept
  as one array of pairs \<open>(u, v)\<close>.
\<close>

definition ncols :: int where
  "ncols = int (length make_color_wheel)"

text \<open>Lines 78 and 79.\<close>

definition nan_idx :: "fl \<times> fl \<Rightarrow> bool" where
  "nan_idx p = (is_nan (fst p) \<or> is_nan (snd p))"

definition zero_nan :: "fl \<times> fl \<Rightarrow> fl \<times> fl" where
  "zero_nan p = (if nan_idx p then (Fin 0, Fin 0) else p)"

text \<open>Line 84 (and line 139): \<open>rad = np.sqrt(u ** 2 + v ** 2)\<close>.\<close>

definition px_rad :: "fl \<times> fl \<Rightarrow> fl" where
  "px_rad p = fsqrt (fadd (fmul (fst p) (fst p)) (fmul (snd p) (snd p)))"

text \<open>Lines 86 to 94.\<close>

definition px_a :: "fl \<times> fl \<Rightarrow> fl" where
  "px_a p = fdiv (fatan2 (fneg (snd p)) (fneg (fst p))) (Fin pi)"

definition px_fk :: "fl \<times> fl \<Rightarrow> fl" where
  "px_fk p =
     fadd (fmul (fdiv (fadd (px_a p) (Fin 1)) (Fin 2)) (Fin (of_int (ncols - 1)))) (Fin 1)"

definition px_k0 :: "fl \<times> fl \<Rightarrow> error + int" where
  "px_k0 p = astype_int (ffloor (px_fk p))"

definition px_k1 :: "int \<Rightarrow> int" where
  "px_k1 k0 = (let k1 = k0 + 1 in if k1 = ncols + 1 then 1 else k1)"

definition px_f :: "fl \<times> fl \<Rightarrow> int \<Rightarrow> fl" where
  "px_f p k0 = fsub (px_fk p) (Fin (of_int k0))"

text \<open>
  Lines 97 to 106, for one column \<open>tmp\<close> of the wheel: the two lookups, the
  interpolation, then the blend towards white or the darkening.
\<close>

definition chan_col :: "real list \<Rightarrow> fl \<Rightarrow> int \<Rightarrow> int \<Rightarrow> fl \<Rightarrow> error + fl" where
  "chan_col tmp rad k0 k1 f =
     (case np_index tmp (k0 - 1) of
        Inl e \<Rightarrow> Inl e
      | Inr c0 \<Rightarrow>
         (case np_index tmp (k1 - 1) of
            Inl e \<Rightarrow> Inl e
          | Inr c1 \<Rightarrow>
             (let col0 = Fin (c0 / 255);
                  col1 = Fin (c1 / 255);
                  col = fadd (fmul (fsub (Fin 1) f) col0) (fmul f col1)
              in Inr (if fle rad (Fin 1)
                      then fsub (Fin 1) (fmul rad (fsub (Fin 1) col))
                      else fmul col (Fin 0.75)))))"

text \<open>
  Line 107: the value \<open>np.floor(255 * col * (1 - NAN_idx))\<close>, and what is stored in the
  float array \<open>img\<close> after \<open>np.uint8\<close>.
\<close>

definition chan_floor :: "real list \<Rightarrow> fl \<Rightarrow> int \<Rightarrow> int \<Rightarrow> fl \<Rightarrow> bool \<Rightarrow> error + fl" where
  "chan_floor tmp rad k0 k1 f nan =
     (case chan_col tmp rad k0 k1 f of
        Inl e \<Rightarrow> Inl e
      | Inr col \<Rightarrow> Inr (ffloor (fmul (fmul (Fin 255) col) (Fin (if nan then 0 else 1)))))"

definition chan_img :: "real list \<Rightarrow> fl \<Rightarrow> int \<Rightarrow> int \<Rightarrow> fl \<Rightarrow> bool \<Rightarrow> error + fl" where
  "chan_img tmp rad k0 k1 f nan =
     (case chan_floor tmp rad k0 k1 f nan of
        Inl e \<Rightarrow> Inl e
      | Inr x \<Rightarrow> (case np_uint8 x of Inl e \<Rightarrow> Inl e | Inr w \<Rightarrow> Inr (Fin (real (unat w)))))"

definition color_px :: "fl \<times> fl \<Rightarrow> error + fl \<times> fl \<times> fl" where
  "color_px p0 =
     (let nan = nan_idx p0;
          p = zero_nan p0;
          rad = px_rad p
      in case px_k0 p of
           Inl e \<Rightarrow> Inl e
         | Inr k0 \<Rightarrow>
            (let k1 = px_k1 k0;
                 f = px_f p k0
             in case chan_img (column 0 make_color_wheel) rad k0 k1 f nan of
                  Inl e \<Rightarrow> Inl e
                | Inr c0 \<Rightarrow>
                   (case chan_img (column 1 make_color_wheel) rad k0 k1 f nan of
                      Inl e \<Rightarrow> Inl e
                    | Inr c1 \<Rightarrow>
                       (case chan_img (column 2 make_color_wheel) rad k0 k1 f nan of
                          Inl e \<Rightarrow> Inl e
                        | Inr c2 \<Rightarrow> Inr (c0, c1, c2)))))"

definition compute_color :: "(fl \<times> fl) list list \<Rightarrow> error + (fl \<times> fl \<times> fl) list list" where
  "compute_color uv = collect2d (map2d color_px uv)"

subsection \<open>\<open>flow2img\<close>\<close>

definition UNKNOW_FLOW_THRESHOLD :: real where
  "UNKNOW_FLOW_THRESHOLD = 10000000"

text \<open>Lines 124 to 126: \<open>idx_unknown\<close> at one pixel.\<close>

definition unknown :: "fl \<times> fl \<Rightarrow> bool" where
  "unknown p =
     (fless (Fin UNKNOW_FLOW_THRESHOLD) (fabs (fst p)) \<or>
      fless (Fin UNKNOW_FLOW_THRESHOLD) (fabs (snd p)))"

text \<open>
  Line 127. \<open>u\<close> and \<open>v\<close> are views of \<open>flow_data\<close>, so the assignment writes into the
  caller's array: \<open>mask_unknown\<close> is what it leaves at one pixel.
\<close>

definition mask_unknown :: "fl \<times> fl \<Rightarrow> fl \<times> fl" where
  "mask_unknown p = (if unknown p then (Fin 0, Fin 0) else p)"

text \<open>Lines 139 and 140.\<close>

definition rad_field :: "(fl \<times> fl) list list \<Rightarrow> fl list list" where
  "rad_field uv = map2d px_rad uv"

text \<open>Lines 141 and 142, at one pixel.\<close>

definition normalize_px :: "fl \<Rightarrow> fl \<times> fl \<Rightarrow> fl \<times> fl" where
  "normalize_px maxrad p =
     (fadd (fdiv (fst p) maxrad) (Fin eps), fadd (fdiv (snd p) maxrad) (Fin eps))"

text \<open>Lines 146 and 147, at one pixel.\<close>

definition zero_unknown :: "bool \<Rightarrow> fl \<times> fl \<times> fl \<Rightarrow> fl \<times> fl \<times> fl" where
  "zero_unknown idx c = (if idx then (Fin 0, Fin 0, Fin 0) else c)"

text \<open>
  The function up to line 147: the float image, and the caller's array as the call
  leaves it. \<open>np.max(u)\<close> raises on an array without elements; the three reductions of
  lines 135 to 137 are over arrays of the same shape, so they raise in no other case,
  and the four values are not used. From line 141 on \<open>u\<close> and \<open>v\<close> are new arrays, so
  nothing later writes into \<open>flow_data\<close>.
\<close>

definition flow2img_float ::
  "(fl \<times> fl) list list \<Rightarrow> (error + (fl \<times> fl \<times> fl) list list) \<times> (fl \<times> fl) list list" where
  "flow2img_float flow_data =
     (let idx_unknown = map2d unknown flow_data;
          uv = map2d mask_unknown flow_data
      in case np_max (concat (map2d fst uv)) of
           Inl e \<Rightarrow> (Inl e, uv)
         | Inr maxu \<Rightarrow>
            (case np_max (concat (rad_field uv)) of
               Inl e \<Rightarrow> (Inl e, uv)
             | Inr m \<Rightarrow>
                (let maxrad = py_max (Fin (- 1)) m
                 in case compute_color (map2d (normalize_px maxrad) uv) of
                      Inl e \<Rightarrow> (Inl e, uv)
                    | Inr img \<Rightarrow> (Inr (map2 (map2 zero_unknown) idx_unknown img), uv))))"

text \<open>Line 149: \<open>return np.uint8(img)\<close>.\<close>

definition uint8_px :: "fl \<times> fl \<times> fl \<Rightarrow> error + 8 word \<times> 8 word \<times> 8 word" where
  "uint8_px c =
     (case c of (r, g, b) \<Rightarrow>
        (case np_uint8 r of
           Inl e \<Rightarrow> Inl e
         | Inr r' \<Rightarrow>
            (case np_uint8 g of
               Inl e \<Rightarrow> Inl e
             | Inr g' \<Rightarrow> (case np_uint8 b of Inl e \<Rightarrow> Inl e | Inr b' \<Rightarrow> Inr (r', g', b')))))"

definition flow2img ::
  "(fl \<times> fl) list list \<Rightarrow>
     (error + (8 word \<times> 8 word \<times> 8 word) list list) \<times> (fl \<times> fl) list list" where
  "flow2img flow_data =
     (case flow2img_float flow_data of
        (Inl e, uv) \<Rightarrow> (Inl e, uv)
      | (Inr img, uv) \<Rightarrow> (collect2d (map2d uint8_px img), uv))"

section \<open>Properties of the frame-pairing scheduler\<close>

subsection \<open>The offset drawn in training mode\<close>

lemma draw_offset_eq: "draw_offset m = {frame_offset_min m .. frame_offset_max m + 1}"
  by (simp add: draw_offset_def randint_def)

text \<open>
  Claim C1: in training mode, on a video-sequence sample, the offset is drawn from
  \<open>[frame_offset_min, frame_offset_max]\<close> and from nowhere else, and \<open>ref_id\<close> is
  \<open>frame_seg_id + offset\<close> clamped to \<open>[0, frame_seg_len - 1]\<close>.
  The code passes \<open>frame_offset_max + 1\<close> as the upper end of a draw that includes both
  ends. With \<open>frame_offset_min = -9\<close> and \<open>frame_offset_max = 0\<close> the offset \<open>1\<close> is
  an outcome of the draw; on frame 5 of a sequence of 10 frames the call then pairs the
  frame with frame 6, which no offset of \<open>[-9, 0]\<close> selects.
\<close>

theorem C1_offset_past_max:
  "frame_offset_max (init True (- 9) 0 10 ''vid'') = 0 \<and>
   1 \<in> draw_offset (init True (- 9) 0 10 ''vid'') \<and>
   ref_id 5 10 1 = 6 \<and>
   mapper_call
     \<lparr>read_image = Some, check_image_size = (\<lambda>d px. True),
      format = (\<lambda>p i. if i = 6 then ''six'' else ''other''), path_join = (\<lambda>a b. b)\<rparr>
     1
     \<lparr>file_name = ''five'', pattern = Some ''p'', frame_seg_id = Some 5, frame_seg_len = Some 10\<rparr>
     (init True (- 9) 0 10 ''vid'', [])
   = (Inr (0, 1), (init True (- 9) 0 10 ''vid'', [''five'', ''six'']))"
  by (simp add: init_def draw_offset_def randint_def ref_id_def mapper_call_def train_pair_def
        alloc_def)

subsection \<open>Still images in training mode\<close>

lemma mapper_call_train_still:
  assumes "is_train m" "pattern d = None"
  shows "mapper_call env offset d (m, h) =
    (case read_image env (file_name d) of
       None \<Rightarrow> (Inl IOError, (m, h))
     | Some px \<Rightarrow> if check_image_size env d px
          then (Inr (length h, Suc (length h)), (m, h @ [px, px]))
          else (Inl SizeMismatchError, (m, h @ [px])))"
  using assms
  by (simp add: mapper_call_def train_pair_def alloc_def nth_append split: option.splits)

text \<open>
  Claim C7: in training mode, for a sample without \<open>pattern\<close>, the returned
  \<open>image_ref\<close> is an independent copy of \<open>image_cur\<close> with the same pixels, taken
  before the augmentations. Whenever the call returns a pair, the two references differ,
  both arrays were made by this call, they have equal content, and that content is what
  \<open>read_image\<close> gave for the sample's file; and the call does return a pair when the
  file can be read and passes the size check.
\<close>

theorem C7_still_image_self_pair:
  assumes "is_train m" and "pattern d = None"
  shows "(\<forall>cur ref m' h'. mapper_call env offset d (m, h) = (Inr (cur, ref), (m', h')) \<longrightarrow>
            ref \<noteq> cur \<and> length h \<le> cur \<and> length h \<le> ref \<and> cur < length h' \<and> ref < length h' \<and>
            h' ! ref = h' ! cur \<and> read_image env (file_name d) = Some (h' ! cur))
       \<and> (\<forall>px. read_image env (file_name d) = Some px \<and> check_image_size env d px \<longrightarrow>
            (\<exists>cur ref st'. mapper_call env offset d (m, h) = (Inr (cur, ref), st')))"
  by (auto simp: mapper_call_train_still [OF assms] nth_append split: option.splits if_splits)

theorem C7_still_image_self_pair_witness:
  "\<exists>cur ref m' h'.
     mapper_call ex_env 0 ((ex_frame 3 1)\<lparr>pattern := None\<rparr>) (init True (- 9) 0 10 ''vid'', [])
       = (Inr (cur, ref), (m', h')) \<and>
     ref \<noteq> cur \<and> h' ! ref = h' ! cur \<and> h' ! cur = ''ff''"
proof -
  let ?m = "init True (- 9) 0 10 ''vid''" and ?d = "(ex_frame 3 1)\<lparr>pattern := None\<rparr>"
  have 1: "is_train ?m" and 2: "pattern ?d = None"
    by (simp_all add: init_def)
  have 3: "read_image ex_env (file_name ?d) = Some ''ff'' \<and> check_image_size ex_env ?d ''ff''"
    by (simp add: ex_env_def ex_frame_def ex_img_def numeral_2_eq_2)
  note t = C7_still_image_self_pair [OF 1 2, of ex_env 0 "[]"]
  from t 3 obtain cur ref st' where c: "mapper_call ex_env 0 ?d (?m, []) = (Inr (cur, ref), st')"
    by blast
  obtain m' h' where st: "st' = (m', h')" by (cases st')
  from t c st have "ref \<noteq> cur \<and> h' ! ref = h' ! cur \<and> read_image ex_env (file_name ?d) = Some (h' ! cur)"
    by blast
  with 3 c st show ?thesis by auto
qed

subsection \<open>Non-key frames out of order\<close>

text \<open>
  Claim C4: in inference mode, a call for a frame whose \<open>frame_seg_id\<close> is not a multiple
  of \<open>key_frame_duration\<close> never returns a pair when the cache is empty or when
  \<open>frame_seg_id - key_frame_seg_id\<close> is not strictly between \<open>0\<close> and
  \<open>key_frame_duration\<close>; when the frame's own file is readable and well-sized, the
  failure is the assertion (Python runs \<open>assert\<close> statements unless started with
  \<open>-O\<close>), and the cache is left as it was.
\<close>

theorem C4_non_key_frame_precondition:
  assumes "\<not> is_train m" and "frame_seg_id d = Some fid"
    and "key_frame_duration m \<noteq> 0" and "fid mod key_frame_duration m \<noteq> 0"
    and "key_frame_img m = None \<or>
         (\<exists>kid. key_frame_seg_id m = Some kid \<and>
            \<not> (0 < fid - kid \<and> fid - kid < key_frame_duration m))"
  shows "(\<forall>r. fst (mapper_call env offset d (m, h)) \<noteq> Inr r)
       \<and> (\<forall>px. read_image env (file_name d) = Some px \<and> check_image_size env d px \<longrightarrow>
            mapper_call env offset d (m, h) = (Inl AssertionError, (m, h @ [px])))"
  using assms
  by (auto simp: mapper_call_def test_ref_def alloc_def split: option.splits)

theorem C4_non_key_frame_precondition_witness:
  "mapper_call ex_env 0 (ex_frame 3 1) (init False 0 0 2 ''vid'', []) =
     (Inl AssertionError, (init False 0 0 2 ''vid'', [''ff'']))"
proof -
  let ?m = "init False 0 0 2 ''vid''"
  have 1: "\<not> is_train ?m" and 2: "frame_seg_id (ex_frame 3 1) = Some 1"
    and 3: "key_frame_duration ?m \<noteq> 0" and 4: "1 mod key_frame_duration ?m \<noteq> 0"
    and 5: "key_frame_img ?m = None \<or>
         (\<exists>kid. key_frame_seg_id ?m = Some kid \<and>
            \<not> (0 < 1 - kid \<and> 1 - kid < key_frame_duration ?m))"
    by (simp_all add: init_def ex_frame_def)
  have 6: "read_image ex_env (file_name (ex_frame 3 1)) = Some ''ff'' \<and>
           check_image_size ex_env (ex_frame 3 1) ''ff''"
    by (simp add: ex_env_def ex_frame_def ex_img_def numeral_2_eq_2)
  from C4_non_key_frame_precondition [OF 1 2 3 4 5, of ex_env 0 "[]"] 6
  show ?thesis by simp
qed

subsection \<open>The cache invariant\<close>

lemma test_ref_cache_ok:
  "cache_ok m \<Longrightarrow> test_ref fid m cur h = Inr (r, m', h') \<Longrightarrow> cache_ok m'"
  by (auto simp: test_ref_def cache_ok_def alloc_def split: if_splits option.splits)

lemma clear_if_last_cache_ok: "cache_ok m \<Longrightarrow> cache_ok (clear_if_last fid len m)"
  by (simp add: clear_if_last_def cache_ok_def)

lemma mapper_call_cache_ok:
  "cache_ok (fst st) \<Longrightarrow> cache_ok (fst (snd (mapper_call env offset d st)))"
  by (cases st)
     (auto simp: mapper_call_def alloc_def clear_if_last_cache_ok Let_def
           split: option.splits sum.splits if_splits dest: test_ref_cache_ok)

lemma reachable_cache_ok: "reachable env m0 st \<Longrightarrow> cache_ok (fst st)"
proof (induction rule: reachable.induct)
  case (fresh train off_min off_max duration img_root h)
  then show ?case by (simp add: cache_ok_def init_def)
next
  case (call st offset d)
  then show ?case by (simp add: mapper_call_cache_ok)
qed

lemma train_call_ignores_cache:
  assumes "is_train m"
  shows "mapper_call env offset d (m\<lparr>key_frame_img := a, key_frame_seg_id := b\<rparr>, h)
       = (fst (mapper_call env offset d (m, h)),
          (m\<lparr>key_frame_img := a, key_frame_seg_id := b\<rparr>,
           snd (snd (mapper_call env offset d (m, h)))))"
proof -
  have tp: "train_pair env offset d (m\<lparr>key_frame_img := a, key_frame_seg_id := b\<rparr>) c h0
          = train_pair env offset d m c h0" for c h0
    by (simp add: train_pair_def draw_offset_def split: option.splits)
  show ?thesis
    using assms
    by (simp add: mapper_call_def alloc_def tp split: option.splits sum.splits)
qed

text \<open>
  Claim C10: in every state an instance can reach from construction, in either mode, a
  non-empty \<open>key_frame_img\<close> comes with a \<open>key_frame_seg_id\<close> that is a multiple of
  \<open>key_frame_duration\<close>; and a training-mode call neither reads nor writes the cache:
  its outcome and the store it leaves are the same whatever the two cache fields hold,
  and the instance is returned with those fields untouched.
\<close>

theorem C10_cache_invariant:
  assumes "reachable env m0 (m, h)"
  shows "(\<forall>a. key_frame_img m = Some a \<longrightarrow>
            (\<exists>k. key_frame_seg_id m = Some k \<and> key_frame_duration m \<noteq> 0 \<and>
                 k mod key_frame_duration m = 0))
       \<and> (is_train m \<longrightarrow>
            (\<forall>offset d. \<exists>r h'. \<forall>a b.
               mapper_call env offset d (m\<lparr>key_frame_img := a, key_frame_seg_id := b\<rparr>, h)
                 = (r, (m\<lparr>key_frame_img := a, key_frame_seg_id := b\<rparr>, h'))))"
proof (intro conjI impI allI)
  fix a assume "key_frame_img m = Some a"
  with reachable_cache_ok [OF assms]
  show "\<exists>k. key_frame_seg_id m = Some k \<and> key_frame_duration m \<noteq> 0 \<and>
            k mod key_frame_duration m = 0"
    by (simp add: cache_ok_def)
next
  fix offset d assume "is_train m"
  then show "\<exists>r h'. \<forall>a b.
               mapper_call env offset d (m\<lparr>key_frame_img := a, key_frame_seg_id := b\<rparr>, h)
                 = (r, (m\<lparr>key_frame_img := a, key_frame_seg_id := b\<rparr>, h'))"
    using train_call_ignores_cache [of m env offset d _ _ h] by blast
qed

theorem C10_cache_invariant_witness:
  "(\<exists>h. reachable ex_env (init False 0 0 2 ''vid'')
           ((init False 0 0 2 ''vid'')\<lparr>key_frame_img := Some 2, key_frame_seg_id := Some 0\<rparr>, h))
   \<and> (0::int) mod key_frame_duration (init False 0 0 2 ''vid'') = 0
   \<and> (\<exists>r h'. \<forall>a b. mapper_call ex_env 0 (ex_frame 3 0)
          ((init True 0 0 2 ''vid'')\<lparr>key_frame_img := a, key_frame_seg_id := b\<rparr>, [])
        = (r, ((init True 0 0 2 ''vid'')\<lparr>key_frame_img := a, key_frame_seg_id := b\<rparr>, h')))"
proof -
  let ?m = "init False 0 0 2 ''vid''" and ?t = "init True 0 0 2 ''vid''"
  let ?m1 = "?m\<lparr>key_frame_img := Some 2, key_frame_seg_id := Some 0\<rparr>"
  have r0: "reachable ex_env ?m (?m, [])" by (rule reachable.fresh) (rule refl)
  have "mapper_call ex_env 0 (ex_frame 3 0) (?m, []) = (Inr (0, 1), (?m1, [''f'', ''f'', ''f'']))"
    by (simp add: mapper_call_def test_ref_def alloc_def clear_if_last_def init_def
          ex_env_def ex_frame_def ex_img_def)
  with reachable.call [OF r0, of 0 "ex_frame 3 0"]
  have r1: "reachable ex_env ?m (?m1, [''f'', ''f'', ''f''])" by simp
  from C10_cache_invariant [OF r1]
  have "\<exists>k. key_frame_seg_id ?m1 = Some k \<and> key_frame_duration ?m1 \<noteq> 0 \<and> k mod key_frame_duration ?m1 = 0"
    by simp
  then have a: "(0::int) mod key_frame_duration ?m = 0" by simp
  have t0: "reachable ex_env ?t (?t, [])" by (rule reachable.fresh) (rule refl)
  have "is_train ?t" by (simp add: init_def)
  with C10_cache_invariant [OF t0]
  have b: "\<exists>r h'. \<forall>a b. mapper_call ex_env 0 (ex_frame 3 0)
          (?t\<lparr>key_frame_img := a, key_frame_seg_id := b\<rparr>, [])
        = (r, (?t\<lparr>key_frame_img := a, key_frame_seg_id := b\<rparr>, h'))"
    by blast
  from r1 a b show ?thesis by blast
qed

subsection \<open>Sequential inference\<close>

lemma int_mod_succ:
  fixes i D :: int
  assumes "0 < D" "0 \<le> i"
  shows "(i + 1) mod D = (if i mod D + 1 = D then 0 else i mod D + 1)"
proof -
  have r: "0 \<le> i mod D" "i mod D < D" using assms by simp_all
  have "(i + 1) mod D = (i mod D + 1) mod D"
    by (simp add: mod_add_left_eq)
  also have "\<dots> = (if i mod D + 1 = D then 0 else i mod D + 1)"
    using r by auto
  finally show ?thesis .
qed

lemma call_key:
  assumes "\<not> is_train m" "key_frame_duration m \<noteq> 0" "frame_seg_id d = Some i"
    "i mod key_frame_duration m = 0" "frame_seg_len d = Some len"
    "read_image env (file_name d) = Some px" "check_image_size env d px"
  shows "mapper_call env off d (m, h) =
          (Inr (length h, Suc (length h)),
           (clear_if_last i len
              (m\<lparr>key_frame_img := Some (Suc (Suc (length h))), key_frame_seg_id := Some i\<rparr>),
            h @ [px, px, px]))"
  using assms
  by (simp add: mapper_call_def test_ref_def alloc_def nth_append)

lemma call_non_key:
  assumes "\<not> is_train m" "key_frame_duration m \<noteq> 0" "frame_seg_id d = Some i"
    "i mod key_frame_duration m \<noteq> 0" "frame_seg_len d = Some len"
    "read_image env (file_name d) = Some px" "check_image_size env d px"
    "key_frame_img m = Some a" "key_frame_seg_id m = Some k"
    "0 < i - k" "i - k < key_frame_duration m" "a < length h" "check_image_size env d (h ! a)"
  shows "mapper_call env off d (m, h) =
          (Inr (length h, a), (clear_if_last i len m, h @ [px]))"
  using assms
  by (simp add: mapper_call_def test_ref_def alloc_def nth_append)

lemma feed_snoc:
  "feed env off xs st = (outs, st') \<Longrightarrow> \<forall>r\<in>set outs. \<exists>p. r = Inr p \<Longrightarrow>
   feed env off (xs @ [d]) st =
     (outs @ [fst (mapper_call env off d st')], snd (mapper_call env off d st'))"
proof (induction xs arbitrary: st outs)
  case Nil
  then show ?case by (auto split: prod.splits sum.splits)
next
  case (Cons x xs)
  obtain r st1 where c: "mapper_call env off x st = (r, st1)" by (cases "mapper_call env off x st")
  show ?case
  proof (cases r)
    case (Inl e)
    with c Cons.prems show ?thesis by auto
  next
    case (Inr p)
    obtain rs st2 where f: "feed env off xs st1 = (rs, st2)" by (cases "feed env off xs st1")
    with c Inr Cons.prems have o: "outs = Inr p # rs" "st2 = st'" by auto
    with Cons.prems(2) have "\<forall>r\<in>set rs. \<exists>p. r = Inr p" by simp
    from Cons.IH [OF f [unfolded o(2)] this] c Inr o show ?thesis by simp
  qed
qed


lemma feed_prefix:
  fixes D :: int and img :: "int \<Rightarrow> 'px"
  assumes nt: "\<not> is_train m" and D: "key_frame_duration m = D" "0 < D"
    and ids: "\<forall>i<length ds. frame_seg_id (ds ! i) = Some (int i) \<and>
                  frame_seg_len (ds ! i) = Some (int (length ds))"
    and rd: "\<forall>i<length ds. read_image env (file_name (ds ! i)) = Some (img (int i))"
    and ck: "\<forall>i<length ds. \<forall>j<length ds. check_image_size env (ds ! i) (img (int j))"
  shows "i \<le> length ds \<Longrightarrow>
    \<exists>outs mi hi. feed env off (take i ds) (m, h) = (outs, (mi, hi)) \<and> length outs = i \<and>
      \<not> is_train mi \<and> key_frame_duration mi = D \<and>
      (i < length ds \<and> int i mod D \<noteq> 0 \<longrightarrow>
         (\<exists>a. key_frame_img mi = Some a \<and> a < length hi \<and>
              hi ! a = img (int i - int i mod D) \<and>
              key_frame_seg_id mi = Some (int i - int i mod D))) \<and>
      (i = length ds \<and> 0 < i \<longrightarrow> key_frame_img mi = None \<and> key_frame_seg_id mi = None) \<and>
      (\<forall>j<i. \<exists>cur ref. outs ! j = Inr (cur, ref) \<and> cur < length hi \<and> ref < length hi \<and>
          hi ! cur = img (int j) \<and> hi ! ref = img (int j - int j mod D) \<and> ref \<noteq> cur \<and>
          (case snd (feed env off (take j ds) (m, h)) of
             (mj, hj) \<Rightarrow> if int j mod D = 0 then length hj \<le> ref
                         else key_frame_img mj = Some ref))"
proof (induction i)
  case 0
  then show ?case using nt D by simp
next
  case (Suc i)
  then have iL: "i < length ds" by simp
  from Suc obtain outs mi hi where
    f: "feed env off (take i ds) (m, h) = (outs, (mi, hi))" and len: "length outs = i" and
    nti: "\<not> is_train mi" and Di: "key_frame_duration mi = D" and
    cache: "int i mod D \<noteq> 0 \<Longrightarrow>
         (\<exists>a. key_frame_img mi = Some a \<and> a < length hi \<and>
              hi ! a = img (int i - int i mod D) \<and>
              key_frame_seg_id mi = Some (int i - int i mod D))" and
    prev: "\<forall>j<i. \<exists>cur ref. outs ! j = Inr (cur, ref) \<and> cur < length hi \<and> ref < length hi \<and>
          hi ! cur = img (int j) \<and> hi ! ref = img (int j - int j mod D) \<and> ref \<noteq> cur \<and>
          (case snd (feed env off (take j ds) (m, h)) of
             (mj, hj) \<Rightarrow> if int j mod D = 0 then length hj \<le> ref
                         else key_frame_img mj = Some ref)"
    by (auto simp: iL)
  have allr: "\<forall>r\<in>set outs. \<exists>p. r = Inr p"
    using prev len by (metis in_set_conv_nth)
  have tk: "take (Suc i) ds = take i ds @ [ds ! i]"
    using iL by (simp add: take_Suc_conv_app_nth)
  have fs: "feed env off (take (Suc i) ds) (m, h) =
      (outs @ [fst (mapper_call env off (ds ! i) (mi, hi))],
       snd (mapper_call env off (ds ! i) (mi, hi)))"
    unfolding tk by (rule feed_snoc [OF f allr])
  have di: "frame_seg_id (ds ! i) = Some (int i)" "frame_seg_len (ds ! i) = Some (int (length ds))"
    "read_image env (file_name (ds ! i)) = Some (img (int i))"
    "check_image_size env (ds ! i) (img (int i))"
    using ids rd ck iL by auto
  have succ: "(int i + 1) mod D = (if int i mod D + 1 = D then 0 else int i mod D + 1)"
    using int_mod_succ [OF D(2), of "int i"] by simp
  define r where "r = (if int i mod D = 0 then Suc (length hi) else the (key_frame_img mi))"
  define m1 where "m1 = (if int i mod D = 0
     then mi\<lparr>key_frame_img := Some (Suc (Suc (length hi))), key_frame_seg_id := Some (int i)\<rparr>
     else mi)"
  define h1 where "h1 = (if int i mod D = 0 then hi @ [img (int i), img (int i), img (int i)]
     else hi @ [img (int i)])"
  have c: "mapper_call env off (ds ! i) (mi, hi) =
          (Inr (length hi, r), (clear_if_last (int i) (int (length ds)) m1, h1))"
    and rprop: "if int i mod D = 0 then length hi \<le> r else key_frame_img mi = Some r"
    and rlt: "r < length h1" and rne: "r \<noteq> length hi"
    and rimg: "h1 ! r = img (int i - int i mod D)"
  proof -
    show "mapper_call env off (ds ! i) (mi, hi) =
          (Inr (length hi, r), (clear_if_last (int i) (int (length ds)) m1, h1))"
    proof (cases "int i mod D = 0")
      case True
      then show ?thesis
        using call_key [OF nti _ di(1) _ di(2) di(3) di(4)] Di D
        by (simp add: r_def m1_def h1_def)
    next
      case False
      from cache [OF False] obtain a where a: "key_frame_img mi = Some a" "a < length hi"
        "hi ! a = img (int i - int i mod D)" "key_frame_seg_id mi = Some (int i - int i mod D)"
        by blast
      have rng: "0 \<le> int i mod D" "int i mod D < D" using D by simp_all
      have "int i mod D \<le> int i" using D by (simp add: zmod_le_nonneg_dividend)
      then have "nat (int i - int i mod D) < length ds"
        "int (nat (int i - int i mod D)) = int i - int i mod D"
        using iL rng by auto
      then have cka: "check_image_size env (ds ! i) (hi ! a)"
        using ck iL a(3) by metis
      show ?thesis
        using call_non_key [OF nti _ di(1) _ di(2) di(3) di(4) a(1) a(4) _ _ a(2) cka]
          False Di D rng a(1)
        by (simp add: r_def m1_def h1_def)
    qed
    show "if int i mod D = 0 then length hi \<le> r else key_frame_img mi = Some r"
      using cache by (auto simp: r_def)
    show "r < length h1" using cache by (auto simp: r_def h1_def)
    show "r \<noteq> length hi" using cache by (auto simp: r_def)
    show "h1 ! r = img (int i - int i mod D)"
      using cache by (auto simp: r_def h1_def nth_append)
  qed
  have hpre: "\<And>a. a < length hi \<Longrightarrow> h1 ! a = hi ! a" and hlen: "length hi < length h1"
    and hcur: "h1 ! length hi = img (int i)"
    by (simp_all add: h1_def nth_append)
  have m1s: "\<not> is_train (clear_if_last (int i) (int (length ds)) m1)"
    "key_frame_duration (clear_if_last (int i) (int (length ds)) m1) = D"
    using nti Di by (simp_all add: clear_if_last_def m1_def)
  have m1last: "Suc i = length ds \<Longrightarrow>
      key_frame_img (clear_if_last (int i) (int (length ds)) m1) = None \<and>
      key_frame_seg_id (clear_if_last (int i) (int (length ds)) m1) = None"
    by (auto simp: clear_if_last_def)
  have m1cache: "\<exists>a. key_frame_img (clear_if_last (int i) (int (length ds)) m1) = Some a \<and>
        a < length h1 \<and> h1 ! a = img (int (Suc i) - int (Suc i) mod D) \<and>
        key_frame_seg_id (clear_if_last (int i) (int (length ds)) m1)
          = Some (int (Suc i) - int (Suc i) mod D)"
    if "Suc i < length ds" "int (Suc i) mod D \<noteq> 0"
  proof -
    have nl: "clear_if_last (int i) (int (length ds)) m1 = m1"
      using that(1) by (auto simp: clear_if_last_def)
    have s: "int (Suc i) mod D = int i mod D + 1"
      using succ that(2) by (auto simp: add.commute split: if_splits)
    show ?thesis
    proof (cases "int i mod D = 0")
      case True
      then show ?thesis unfolding nl using s
        by (simp add: m1_def h1_def nth_append)
    next
      case False
      with cache show ?thesis unfolding nl using s
        by (auto simp: m1_def h1_def nth_append)
    qed
  qed
  have old: "\<exists>cur ref. (outs @ [Inr (length hi, r)]) ! j = Inr (cur, ref) \<and> cur < length h1 \<and>
          ref < length h1 \<and>
          h1 ! cur = img (int j) \<and> h1 ! ref = img (int j - int j mod D) \<and> ref \<noteq> cur \<and>
          (case snd (feed env off (take j ds) (m, h)) of
             (mj, hj) \<Rightarrow> if int j mod D = 0 then length hj \<le> ref
                         else key_frame_img mj = Some ref)" if "j < Suc i" for j
  proof (cases "j = i")
    case True
    then show ?thesis
      using len f rprop rlt rne rimg hlen hcur by (simp add: nth_append)
  next
    case False
    with that have ji: "j < i" by simp
    from prev [rule_format, OF ji] obtain cur ref where
      p: "outs ! j = Inr (cur, ref)" "cur < length hi" "ref < length hi"
          "hi ! cur = img (int j)" "hi ! ref = img (int j - int j mod D)" "ref \<noteq> cur"
          "(case snd (feed env off (take j ds) (m, h)) of
             (mj, hj) \<Rightarrow> if int j mod D = 0 then length hj \<le> ref
                         else key_frame_img mj = Some ref)"
      by (elim exE conjE) (rule that)
    show ?thesis
      using p ji len hlen hpre by (intro exI [of _ cur] exI [of _ ref]) (simp add: nth_append)
  qed
  show ?case
    unfolding fs c fst_conv snd_conv
    apply (intro exI [of _ "outs @ [Inr (length hi, r)]"]
                 exI [of _ "clear_if_last (int i) (int (length ds)) m1"] exI [of _ h1] conjI)
    subgoal by simp
    subgoal using len by simp
    subgoal by (rule m1s)
    subgoal by (rule m1s)
    subgoal using m1cache by blast
    subgoal using m1last by blast
    subgoal using old by blast
    done
qed

text \<open>
  Claim C3: in inference mode, feeding a sequence of length \<open>L\<close> in the order
  \<open>0, 1, ..., L - 1\<close> with key-frame duration \<open>D\<close>: at every multiple of \<open>D\<close>
  \<open>image_ref\<close> is a copy of \<open>image_cur\<close> (an array made during that call, with the
  content of the current frame); at every other index it is the very array the cache
  held when the call began, and its content is the image of the most recent multiple of
  \<open>D\<close>; and after the call for index \<open>L - 1\<close> both cache fields are empty. \<open>img i\<close>
  is the decoded image of frame \<open>i\<close>. The run may start from any state of the instance.
\<close>

theorem C3_sequential_inference:
  fixes img :: "int \<Rightarrow> 'px"
  assumes "\<not> is_train m" and "0 < key_frame_duration m" and "ds \<noteq> []"
    and "\<forall>i<length ds. frame_seg_id (ds ! i) = Some (int i) \<and>
                  frame_seg_len (ds ! i) = Some (int (length ds))"
    and "\<forall>i<length ds. read_image env (file_name (ds ! i)) = Some (img (int i))"
    and "\<forall>i<length ds. \<forall>j<length ds. check_image_size env (ds ! i) (img (int j))"
  shows "\<exists>outs m' h'. feed env offset ds (m, h) = (outs, (m', h')) \<and>
      length outs = length ds \<and> key_frame_img m' = None \<and> key_frame_seg_id m' = None \<and>
      (\<forall>i<length ds. \<exists>cur ref. outs ! i = Inr (cur, ref) \<and>
          h' ! cur = img (int i) \<and>
          h' ! ref = img (int i - int i mod key_frame_duration m) \<and> ref \<noteq> cur \<and>
          (case snd (feed env offset (take i ds) (m, h)) of
             (mi, hi) \<Rightarrow> if int i mod key_frame_duration m = 0 then length hi \<le> ref
                         else key_frame_img mi = Some ref))"
proof -
  from feed_prefix [OF assms(1) refl assms(2) assms(4) assms(5) assms(6) order_refl, of offset h]
  obtain outs mi hi where
    f: "feed env offset (take (length ds) ds) (m, h) = (outs, (mi, hi))" and
    l: "length outs = length ds" and
    c0: "length ds = length ds \<and> 0 < length ds \<longrightarrow>
           key_frame_img mi = None \<and> key_frame_seg_id mi = None" and
    p: "\<forall>j<length ds. \<exists>cur ref. outs ! j = Inr (cur, ref) \<and> cur < length hi \<and> ref < length hi \<and>
          hi ! cur = img (int j) \<and> hi ! ref = img (int j - int j mod key_frame_duration m) \<and>
          ref \<noteq> cur \<and>
          (case snd (feed env offset (take j ds) (m, h)) of
             (mj, hj) \<Rightarrow> if int j mod key_frame_duration m = 0 then length hj \<le> ref
                         else key_frame_img mj = Some ref)"
    by (elim exE conjE) (rule that)
  from c0 assms(3) have c: "key_frame_img mi = None \<and> key_frame_seg_id mi = None" by simp
  have q: "\<exists>cur ref. outs ! i = Inr (cur, ref) \<and>
          hi ! cur = img (int i) \<and>
          hi ! ref = img (int i - int i mod key_frame_duration m) \<and> ref \<noteq> cur \<and>
          (case snd (feed env offset (take i ds) (m, h)) of
             (mi, hi) \<Rightarrow> if int i mod key_frame_duration m = 0 then length hi \<le> ref
                         else key_frame_img mi = Some ref)" if "i < length ds" for i
  proof -
    from p that obtain cur ref where
      "outs ! i = Inr (cur, ref)" "cur < length hi" "ref < length hi"
      "hi ! cur = img (int i)" "hi ! ref = img (int i - int i mod key_frame_duration m)"
      "ref \<noteq> cur"
      "(case snd (feed env offset (take i ds) (m, h)) of
             (mj, hj) \<Rightarrow> if int i mod key_frame_duration m = 0 then length hj \<le> ref
                         else key_frame_img mj = Some ref)"
      by (elim allE [of _ i] impE exE conjE) (assumption, rule that)
    then show ?thesis by (intro exI [of _ cur] exI [of _ ref] conjI)
  qed
  from f have f: "feed env offset ds (m, h) = (outs, (mi, hi))" by simp
  show ?thesis
    unfolding f
    apply (intro exI [of _ outs] exI [of _ mi] exI [of _ hi] conjI)
    subgoal by simp
    subgoal by (rule l)
    subgoal using c by simp
    subgoal using c by simp
    subgoal using q by (intro allI impI)
    done
qed

theorem C3_sequential_inference_witness:
  "\<exists>outs m' h'. feed ex_env 0 (ex_seq 3) (init False 0 0 2 ''vid'', []) = (outs, (m', h')) \<and>
      length outs = 3 \<and> key_frame_img m' = None \<and> key_frame_seg_id m' = None \<and>
      (\<exists>cur ref. outs ! 1 = Inr (cur, ref) \<and> h' ! cur = ''ff'' \<and> h' ! ref = ''f'' \<and> ref \<noteq> cur)"
proof -
  let ?m = "init False 0 0 2 ''vid''"
  have 1: "\<not> is_train ?m" and 2: "0 < key_frame_duration ?m" and 3: "ex_seq 3 \<noteq> []"
    by (simp_all add: init_def ex_seq_def)
  have 4: "\<forall>i<length (ex_seq 3). frame_seg_id (ex_seq 3 ! i) = Some (int i) \<and>
                  frame_seg_len (ex_seq 3 ! i) = Some (int (length (ex_seq 3)))"
    by (simp add: ex_seq_def ex_frame_def)
  have 5: "\<forall>i<length (ex_seq 3). read_image ex_env (file_name (ex_seq 3 ! i)) = Some (ex_img (int i))"
    by (simp add: ex_seq_def ex_frame_def ex_env_def)
  have 6: "\<forall>i<length (ex_seq 3). \<forall>j<length (ex_seq 3).
             check_image_size ex_env (ex_seq 3 ! i) (ex_img (int j))"
    by (simp add: ex_env_def)
  from C3_sequential_inference [OF 1 2 3 4 5 6, of 0 "[]"]
  obtain outs m' h' where
    f: "feed ex_env 0 (ex_seq 3) (?m, []) = (outs, (m', h'))" and
    l: "length outs = length (ex_seq 3)" and
    c: "key_frame_img m' = None" "key_frame_seg_id m' = None" and
    p: "\<forall>i<length (ex_seq 3). \<exists>cur ref. outs ! i = Inr (cur, ref) \<and>
          h' ! cur = ex_img (int i) \<and>
          h' ! ref = ex_img (int i - int i mod key_frame_duration ?m) \<and> ref \<noteq> cur \<and>
          (case snd (feed ex_env 0 (take i (ex_seq 3)) (?m, [])) of
             (mi, hi) \<Rightarrow> if int i mod key_frame_duration ?m = 0 then length hi \<le> ref
                         else key_frame_img mi = Some ref)"
    by (elim exE conjE) (rule that)
  have "1 < length (ex_seq 3)" by (simp add: ex_seq_def)
  with p have "\<exists>cur ref. outs ! 1 = Inr (cur, ref) \<and>
          h' ! cur = ex_img (int 1) \<and>
          h' ! ref = ex_img (int 1 - int 1 mod key_frame_duration ?m) \<and> ref \<noteq> cur \<and>
          (case snd (feed ex_env 0 (take 1 (ex_seq 3)) (?m, [])) of
             (mi, hi) \<Rightarrow> if int 1 mod key_frame_duration ?m = 0 then length hi \<le> ref
                         else key_frame_img mi = Some ref)"
    by (elim allE [of _ 1] impE) assumption
  then have q: "\<exists>cur ref. outs ! 1 = Inr (cur, ref) \<and> h' ! cur = ''ff'' \<and> h' ! ref = ''f'' \<and> ref \<noteq> cur"
    by (auto simp: ex_img_def init_def numeral_2_eq_2)
  have l': "length outs = 3" using l by (simp add: ex_seq_def)
  show ?thesis
    using f l' c q by (intro exI [of _ outs] exI [of _ m'] exI [of _ h'] conjI)
qed

section \<open>Properties of the flow colour encoder\<close>

subsection \<open>The colour wheel and the angle\<close>

lemma length_ramp [simp]: "length (ramp n) = n"
  by (simp add: ramp_def)

lemma length_make_color_wheel: "length make_color_wheel = 55"
  by (simp add: make_color_wheel_def RY_def YG_def GC_def CB_def BM_def MR_def)

lemma ncols_eq: "ncols = 55"
  by (simp add: ncols_def length_make_color_wheel)

lemma atan2_bounds: "- pi \<le> atan2 y x \<and> atan2 y x \<le> pi"
proof -
  have b: "- (pi / 2) < arctan (y / x)" "arctan (y / x) < pi / 2"
    by (rule arctan_lbound, rule arctan_ubound)
  have p: "0 < pi" by simp
  consider "0 < x" | "x < 0" "0 \<le> y" | "x < 0" "y < 0" | "x = 0" "0 < y" | "x = 0" "y < 0"
    | "x = 0" "y = 0"
    by linarith
  then show ?thesis
  proof cases
    case 1
    then have "atan2 y x = arctan (y / x)" by (simp add: atan2_def)
    with b p show ?thesis by linarith
  next
    case 2
    then have "y / x \<le> 0" by (simp add: divide_nonneg_neg)
    then have "arctan (y / x) \<le> 0" by simp
    moreover from 2 have "atan2 y x = arctan (y / x) + pi" by (simp add: atan2_def)
    ultimately show ?thesis using b p by linarith
  next
    case 3
    then have "0 < y / x" by (simp add: divide_neg_neg)
    then have "0 < arctan (y / x)" by simp
    moreover from 3 have "atan2 y x = arctan (y / x) - pi" by (simp add: atan2_def)
    ultimately show ?thesis using b p by linarith
  next
    case 4
    then have "atan2 y x = pi / 2" by (simp add: atan2_def)
    with p show ?thesis by linarith
  next
    case 5
    then have "atan2 y x = - (pi / 2)" by (simp add: atan2_def)
    with p show ?thesis by linarith
  next
    case 6
    then have "atan2 y x = 0" by (simp add: atan2_def)
    with p show ?thesis by linarith
  qed
qed

lemma fatan2_bounds:
  assumes "\<not> is_nan y" "\<not> is_nan x"
  shows "\<exists>t. fatan2 y x = Fin t \<and> - pi \<le> t \<and> t \<le> pi"
proof -
  have p: "0 < pi" by simp
  have "case fatan2 y x of Fin t \<Rightarrow> - pi \<le> t \<and> t \<le> pi | _ \<Rightarrow> False"
    using assms atan2_bounds by (cases y; cases x; simp) (use p in linarith)+
  then show ?thesis by (cases "fatan2 y x") simp_all
qed

lemma not_nan_fneg: "\<not> is_nan x \<Longrightarrow> \<not> is_nan (fneg x)"
  by (cases x) simp_all

lemma not_nan_zero_nan: "\<not> nan_idx (zero_nan p)"
  by (simp add: zero_nan_def nan_idx_def)

lemma px_a_bounds:
  assumes "\<not> nan_idx p"
  shows "\<exists>a. px_a p = Fin a \<and> - 1 \<le> a \<and> a \<le> 1"
proof -
  from assms have "\<not> is_nan (fneg (snd p))" "\<not> is_nan (fneg (fst p))"
    by (simp_all add: nan_idx_def not_nan_fneg)
  from fatan2_bounds [OF this] obtain t where
    t: "fatan2 (fneg (snd p)) (fneg (fst p)) = Fin t" "- pi \<le> t" "t \<le> pi"
    by blast
  have p: "0 < pi" by simp
  have "- 1 \<le> t / pi" using t(2) p by (simp add: pos_le_divide_eq)
  moreover have "t / pi \<le> 1" using t(3) p by (simp add: pos_divide_le_eq)
  ultimately show ?thesis using t(1) by (simp add: px_a_def)
qed

lemma px_fk_bounds:
  assumes "\<not> nan_idx p"
  shows "\<exists>x. px_fk p = Fin x \<and> 1 \<le> x \<and> x \<le> 55"
proof -
  from px_a_bounds [OF assms] obtain a where a: "px_a p = Fin a" "- 1 \<le> a" "a \<le> 1"
    by blast
  have "px_fk p = Fin ((a + 1) / 2 * 54 + 1)"
    by (simp add: px_fk_def a(1) ncols_eq)
  moreover have "1 \<le> (a + 1) / 2 * 54 + 1" "(a + 1) / 2 * 54 + 1 \<le> 55"
    using a(2,3) by simp_all
  ultimately show ?thesis by blast
qed

lemma px_k0_bounds:
  assumes "\<not> nan_idx p"
  shows "\<exists>k0 t. px_k0 p = Inr k0 \<and> 1 \<le> k0 \<and> k0 \<le> 55 \<and>
           px_f p k0 = Fin t \<and> 0 \<le> t \<and> t < 1"
proof -
  from px_fk_bounds [OF assms] obtain x where x: "px_fk p = Fin x" "1 \<le> x" "x \<le> 55"
    by blast
  have "1 \<le> \<lfloor>x\<rfloor>" using x(2) by (simp add: le_floor_iff)
  moreover have "\<lfloor>x\<rfloor> \<le> 55" using x(3) by (simp add: floor_le_iff)
  moreover have "px_f p \<lfloor>x\<rfloor> = Fin (x - of_int \<lfloor>x\<rfloor>)"
    by (simp add: px_f_def x(1) fsub_def)
  moreover have "0 \<le> x - of_int \<lfloor>x\<rfloor>" "x - of_int \<lfloor>x\<rfloor> < 1"
    by linarith+
  ultimately show ?thesis by (simp add: px_k0_def x(1))
qed

lemma px_k1_bounds: "1 \<le> k0 \<Longrightarrow> k0 \<le> 55 \<Longrightarrow>
    1 \<le> px_k1 k0 \<and> px_k1 k0 \<le> 55 \<and> px_k1 k0 = (if k0 = 55 then 1 else k0 + 1)"
  by (simp add: px_k1_def ncols_eq Let_def)





















lemma snd_flow2img_float: "snd (flow2img_float flow) = map2d mask_unknown flow"
  by (simp add: flow2img_float_def Let_def split: sum.splits)

lemma snd_flow2img: "snd (flow2img flow) = map2d mask_unknown flow"
proof -
  obtain r uv where f: "flow2img_float flow = (r, uv)" by (cases "flow2img_float flow")
  with snd_flow2img_float [of flow] have "uv = map2d mask_unknown flow" by simp
  with f show ?thesis by (cases r) (simp_all add: flow2img_def)
qed


subsection \<open>Indices into the colour wheel\<close>

text \<open>
  Claim C8: for every input pixel the indices into the colour wheel stay in bounds. The
  wheel has \<open>55 = 15 + 6 + 4 + 11 + 13 + 6\<close> rows; after the \<open>nan\<close> pixels are zeroed
  the angle \<open>a\<close> is a finite number in \<open>[-1, 1]\<close>, so \<open>fk\<close> is in \<open>[1, 55]\<close> and
  \<open>k0 = floor(fk)\<close> is an integer in \<open>[1, 55]\<close>; \<open>k1\<close> is \<open>k0 + 1\<close>, or \<open>1\<close> when
  \<open>k0 = 55\<close>; and both lookups \<open>tmp[k0 - 1]\<close> and \<open>tmp[k1 - 1]\<close> read a row of the table
  at a non-negative index below its length, for each column \<open>c\<close>.
\<close>

theorem C8_wheel_indices_in_bounds:
  "length make_color_wheel = 55 \<and> RY + YG + GC + CB + BM + MR = 55 \<and> ncols = 55 \<and>
   (\<exists>a. px_a (zero_nan p) = Fin a \<and> - 1 \<le> a \<and> a \<le> 1) \<and>
   (\<exists>fk. px_fk (zero_nan p) = Fin fk \<and> 1 \<le> fk \<and> fk \<le> 55) \<and>
   (\<exists>k0. px_k0 (zero_nan p) = Inr k0 \<and> 1 \<le> k0 \<and> k0 \<le> 55 \<and>
      px_k1 k0 = (if k0 = 55 then 1 else k0 + 1) \<and> 1 \<le> px_k1 k0 \<and> px_k1 k0 \<le> 55 \<and>
      nat (k0 - 1) < length (column c make_color_wheel) \<and>
      nat (px_k1 k0 - 1) < length (column c make_color_wheel) \<and>
      np_index (column c make_color_wheel) (k0 - 1) = Inr (column c make_color_wheel ! nat (k0 - 1)) \<and>
      np_index (column c make_color_wheel) (px_k1 k0 - 1)
        = Inr (column c make_color_wheel ! nat (px_k1 k0 - 1)))"
proof -
  have nn: "\<not> nan_idx (zero_nan p)" by (rule not_nan_zero_nan)
  from px_k0_bounds [OF nn] obtain k0 where
    k: "px_k0 (zero_nan p) = Inr k0" "1 \<le> k0" "k0 \<le> 55"
    by blast
  note k1 = px_k1_bounds [OF k(2,3)]
  have idx: "nat (k - 1) < length (column c make_color_wheel) \<and>
        np_index (column c make_color_wheel) (k - 1) = Inr (column c make_color_wheel ! nat (k - 1))"
    if "1 \<le> k" "k \<le> 55" for k
    using that by (simp add: np_index_def column_def length_make_color_wheel)
  have "px_k0 (zero_nan p) = Inr k0 \<and> 1 \<le> k0 \<and> k0 \<le> 55 \<and>
      px_k1 k0 = (if k0 = 55 then 1 else k0 + 1) \<and> 1 \<le> px_k1 k0 \<and> px_k1 k0 \<le> 55 \<and>
      nat (k0 - 1) < length (column c make_color_wheel) \<and>
      nat (px_k1 k0 - 1) < length (column c make_color_wheel) \<and>
      np_index (column c make_color_wheel) (k0 - 1) = Inr (column c make_color_wheel ! nat (k0 - 1)) \<and>
      np_index (column c make_color_wheel) (px_k1 k0 - 1)
        = Inr (column c make_color_wheel ! nat (px_k1 k0 - 1))"
    using k k1 idx [OF k(2,3)] idx [of "px_k1 k0"] by simp
  then have "\<exists>k0. px_k0 (zero_nan p) = Inr k0 \<and> 1 \<le> k0 \<and> k0 \<le> 55 \<and>
      px_k1 k0 = (if k0 = 55 then 1 else k0 + 1) \<and> 1 \<le> px_k1 k0 \<and> px_k1 k0 \<le> 55 \<and>
      nat (k0 - 1) < length (column c make_color_wheel) \<and>
      nat (px_k1 k0 - 1) < length (column c make_color_wheel) \<and>
      np_index (column c make_color_wheel) (k0 - 1) = Inr (column c make_color_wheel ! nat (k0 - 1)) \<and>
      np_index (column c make_color_wheel) (px_k1 k0 - 1)
        = Inr (column c make_color_wheel ! nat (px_k1 k0 - 1))" ..
  moreover have "RY + YG + GC + CB + BM + MR = 55"
    by (simp add: RY_def YG_def GC_def CB_def BM_def MR_def)
  ultimately show ?thesis
    using length_make_color_wheel ncols_eq px_a_bounds [OF nn] px_fk_bounds [OF nn] by blast
qed

theorem C8_wheel_indices_in_bounds_witness:
  "\<exists>k0. px_k0 (zero_nan (Fin 1, NaN)) = Inr k0 \<and> 1 \<le> k0 \<and> k0 \<le> 55 \<and>
      1 \<le> px_k1 k0 \<and> px_k1 k0 \<le> 55"
  using C8_wheel_indices_in_bounds [of "(Fin 1, NaN)" 0] by blast

subsection \<open>Shape and range of the image\<close>



subsection \<open>Unknown flow\<close>



subsection \<open>The all-zero field\<close>

text \<open>
  Claim C2: an all-zero flow field is encoded as a uniform white image, every channel
  at its maximum, and no \<open>nan\<close> from a division by zero reaches the returned image.
  In the code the maximum of \<open>rad\<close> is \<open>0\<close>, \<open>max(-1, 0)\<close> is \<open>0\<close>, and \<open>u / maxrad\<close> is
  \<open>0 / 0\<close>: \<open>eps\<close> is added to the quotient, not to the divisor. Every pixel reaches
  \<open>compute_color\<close> as \<open>nan\<close> and is zeroed by the factor \<open>1 - NAN_idx\<close>, so the image is
  uniformly black. Evaluated on a field of two by two pixels.
\<close>

theorem C2_zero_flow_is_black:
  "flow2img [[(Fin 0, Fin 0), (Fin 0, Fin 0)], [(Fin 0, Fin 0), (Fin 0, Fin 0)]]
     = (Inr [[(0, 0, 0), (0, 0, 0)], [(0, 0, 0), (0, 0, 0)]],
        [[(Fin 0, Fin 0), (Fin 0, Fin 0)], [(Fin 0, Fin 0), (Fin 0, Fin 0)]])
   \<and> np_max (concat (rad_field [[(Fin 0, Fin 0), (Fin 0, Fin 0)], [(Fin 0, Fin 0), (Fin 0, Fin 0)]]))
       = Inr (Fin 0)
   \<and> py_max (Fin (- 1)) (Fin 0) = Fin 0
   \<and> normalize_px (Fin 0) (Fin 0, Fin 0) = (NaN, NaN)"
  by (simp add: flow2img_def flow2img_float_def map2d_def unknown_def mask_unknown_def
        UNKNOW_FLOW_THRESHOLD_def rad_field_def px_rad_def py_max_def normalize_px_def Let_def
        fmaximum_def
        compute_color_def collect2d_def color_px_def nan_idx_def zero_nan_def px_k0_def
        px_fk_def px_a_def atan2_def ncols_eq px_k1_def px_f_def chan_img_def chan_floor_def
        chan_col_def np_index_def length_make_color_wheel column_def fsub_def zero_unknown_def
        uint8_px_def)

subsection \<open>The caller's array\<close>

text \<open>
  Claim C5, as stated: \<open>flow2img\<close> leaves the caller's array unchanged. It does not:
  on a field whose only pixel is \<open>(2e7, 1)\<close> the array the call leaves differs from the
  one it was given.
\<close>

theorem C5_input_overwritten:
  "snd (flow2img [[(Fin 20000000, Fin 1)]]) \<noteq> [[(Fin 20000000, Fin 1)]]"
  by (simp add: snd_flow2img map2d_def mask_unknown_def unknown_def UNKNOW_FLOW_THRESHOLD_def)

text \<open>
  Claim C5, amended: the only change \<open>flow2img\<close> makes to the caller's array is to
  overwrite with \<open>0\<close> both channels of every pixel where \<open>|u| > 1e7\<close> or \<open>|v| > 1e7\<close>.
  The array keeps its shape, every other pixel keeps its value, and an array without
  such a pixel is left as it was. The function keeps no state of its own: what it
  returns and what it leaves in the array are functions of the array it is given.
\<close>

theorem C5_flow2img_writes_unknown_only:
  "length (snd (flow2img flow)) = length flow \<and>
   (\<forall>i<length flow. length (snd (flow2img flow) ! i) = length (flow ! i) \<and>
      (\<forall>j<length (flow ! i).
         snd (flow2img flow) ! i ! j =
           (if unknown (flow ! i ! j) then (Fin 0, Fin 0) else flow ! i ! j))) \<and>
   ((\<forall>row\<in>set flow. \<forall>p\<in>set row. \<not> unknown p) \<longrightarrow> snd (flow2img flow) = flow)"
proof -
  have "map2d mask_unknown flow = flow" if "\<forall>row\<in>set flow. \<forall>p\<in>set row. \<not> unknown p"
    unfolding map2d_def using that by (simp add: mask_unknown_def map_idI)
  then show ?thesis
    by (simp add: snd_flow2img map2d_def mask_unknown_def)
qed

theorem C5_flow2img_writes_unknown_only_witness:
  "snd (flow2img [[(Fin 20000000, Fin 1), (Fin 3, Fin 4)]]) = [[(Fin 0, Fin 0), (Fin 3, Fin 4)]]
   \<and> snd (flow2img [[(Fin 3, Fin 4)]]) = [[(Fin 3, Fin 4)]]"
proof -
  let ?f = "[[(Fin 20000000, Fin 1), (Fin 3, Fin 4)]]"
  have u: "unknown (Fin 20000000, Fin 1)" "\<not> unknown (Fin 3, Fin 4)"
    by (simp_all add: unknown_def UNKNOW_FLOW_THRESHOLD_def)
  from C5_flow2img_writes_unknown_only [of ?f]
  have l: "length (snd (flow2img ?f)) = 1" "length (snd (flow2img ?f) ! 0) = 2"
    "snd (flow2img ?f) ! 0 ! 0 = (Fin 0, Fin 0)" "snd (flow2img ?f) ! 0 ! 1 = (Fin 3, Fin 4)"
    using u by simp_all
  have a: "snd (flow2img ?f) = [[(Fin 0, Fin 0), (Fin 3, Fin 4)]]"
  proof -
    from l(1) obtain r where r: "snd (flow2img ?f) = [r]"
      by (cases "snd (flow2img ?f)") simp_all
    with l(2) obtain x y where "r = [x, y]"
      by (cases r; cases "tl r") auto
    with r l(3,4) show ?thesis by simp
  qed
  from C5_flow2img_writes_unknown_only [of "[[(Fin 3, Fin 4)]]"] u(2)
  have b: "snd (flow2img [[(Fin 3, Fin 4)]]) = [[(Fin 3, Fin 4)]]" by simp
  from a b show ?thesis by simp
qed

end
